theory Spec2Isabelle
  imports Complex_Main
begin

section \<open>Data model (core/models.py)\<close>

text \<open>
  Primary keys are natural numbers. A point in time is an integer number of microseconds
  since the epoch (UTC). Every \<open>DecimalField\<close> and every Python \<open>float\<close> is
  an exact rational here: binary rounding error of floats and the digit limit of
  \<open>max_digits\<close> are outside the model; the two decimal places of a stored
  \<open>DecimalField\<close> are kept (see \<open>quantize2\<close>).
\<close>

type_synonym pk = nat
type_synonym instant = int

datatype booking_status = PENDING_PAYMENT | CONFIRMED | CANCELLED | COMPLETED | NO_SHOW

datatype payment_status = INITIATED | SUCCESS | FAILED | REFUNDED | PARTIAL_REFUND

datatype fine_status = UNPAID | PAID

datatype notification_type = BOOKING_CONFIRMATION | EXPIRY_REMINDER | FINE_ALERT

datatype channel = EMAIL | SMS | IN_APP

datatype event_type = ENTRY | EXIT

record parking_location =
  loc_id :: pk
  base_rate_per_hour :: rat
  base_rate_per_day :: rat
  is_active :: bool

record parking_slot =
  slot_id :: pk
  slot_location :: pk

record vehicle =
  vehicle_id :: pk
  vehicle_owner :: pk
  is_default :: bool

text \<open>
  \<open>DynamicPricingRule\<close>: \<open>location\<close> and \<open>day_of_week\<close> are nullable;
  \<open>start_time\<close> and \<open>end_time\<close> are times of day, in microseconds after midnight.
\<close>

record pricing_rule =
  rule_location :: "pk option"
  day_of_week :: "int option"
  start_time :: int
  end_time :: int
  multiplier :: rat

record cancellation_policy =
  policy_location :: "pk option"
  min_minutes_before_start :: int
  refund_percentage :: rat

text \<open>
  \<open>Booking\<close>. The attribute \<open>booking.location\<close> is the related
  \<open>ParkingLocation\<close> object, so the record holds the location itself; no operation
  modelled here changes a location. The other foreign keys are held as primary keys.
\<close>

record booking =
  b_id :: pk
  b_user :: pk
  b_vehicle :: pk
  b_location :: parking_location
  b_slot :: pk
  b_status :: booking_status
  entry_datetime_expected :: instant
  exit_datetime_expected :: instant
  actual_entry_datetime :: "instant option"
  actual_exit_datetime :: "instant option"
  duration_hours_booked :: rat
  amount_expected :: rat
  amount_paid :: rat
  reservation_expires_at :: "instant option"

record payment =
  p_booking :: pk
  p_amount :: rat
  p_status :: payment_status
  payment_method :: string

record booking_extension =
  x_booking :: pk
  extra_hours :: rat
  extra_amount :: rat

record fine =
  f_booking :: pk
  f_reason :: string
  f_amount :: rat
  f_status :: fine_status

record notification_log =
  n_user :: pk
  n_type :: notification_type
  n_channel :: channel

record entry_exit_log =
  l_booking :: pk
  l_event :: event_type

text \<open>The database: one list of rows per table, in table order.\<close>

record db =
  locations :: "parking_location list"
  slots :: "parking_slot list"
  vehicles :: "vehicle list"
  pricing_rules :: "pricing_rule list"
  cancellation_policies :: "cancellation_policy list"
  bookings :: "booking list"
  payments :: "payment list"
  extensions :: "booking_extension list"
  fines :: "fine list"
  notifications :: "notification_log list"
  entry_exit_logs :: "entry_exit_log list"

definition empty_db :: db where
  "empty_db = \<lparr>locations = [], slots = [], vehicles = [], pricing_rules = [],
     cancellation_policies = [], bookings = [], payments = [], extensions = [], fines = [],
     notifications = [], entry_exit_logs = []\<rparr>"

section \<open>Python numbers and datetimes\<close>

text \<open>
  What a view can answer: an exception that escapes the view (\<open>Http404\<close>,
  \<open>TypeError\<close>, \<open>IntegrityError\<close>, \<open>ValueError\<close>), or an error message shown to
  the user before a redirect.
\<close>

datatype error =
  Http404
  | TypeError
  | ValueError
  | IntegrityError
  | FormInvalid
  | SlotAlreadyBooked
  | NewExitMissing
  | NewExitNotAfterCurrent
  | ExtensionWindowTaken
  | CancelOnlyBeforeStart
  | InvalidBookingCode

text \<open>
  Python arithmetic keeps \<open>decimal.Decimal\<close> and \<open>float\<close> apart: an operator with
  one operand of each type raises \<open>TypeError\<close>. A \<open>DecimalField\<close> read from the
  database is a \<open>Decimal\<close>.
\<close>

datatype pynum = PyDecimal rat | PyFloat rat

fun num_value :: "pynum \<Rightarrow> rat" where
  "num_value (PyDecimal x) = x"
| "num_value (PyFloat x) = x"

fun py_mul :: "pynum \<Rightarrow> pynum \<Rightarrow> error + pynum" where
  "py_mul (PyDecimal x) (PyDecimal y) = Inr (PyDecimal (x * y))"
| "py_mul (PyFloat x) (PyFloat y) = Inr (PyFloat (x * y))"
| "py_mul (PyDecimal x) (PyFloat y) = Inl TypeError"
| "py_mul (PyFloat x) (PyDecimal y) = Inl TypeError"

fun py_add :: "pynum \<Rightarrow> pynum \<Rightarrow> error + pynum" where
  "py_add (PyDecimal x) (PyDecimal y) = Inr (PyDecimal (x + y))"
| "py_add (PyFloat x) (PyFloat y) = Inr (PyFloat (x + y))"
| "py_add (PyDecimal x) (PyFloat y) = Inl TypeError"
| "py_add (PyFloat x) (PyDecimal y) = Inl TypeError"

fun py_sub :: "pynum \<Rightarrow> pynum \<Rightarrow> error + pynum" where
  "py_sub (PyDecimal x) (PyDecimal y) = Inr (PyDecimal (x - y))"
| "py_sub (PyFloat x) (PyFloat y) = Inr (PyFloat (x - y))"
| "py_sub (PyDecimal x) (PyFloat y) = Inl TypeError"
| "py_sub (PyFloat x) (PyDecimal y) = Inl TypeError"

text \<open>Python's \<open>round(x)\<close>: to the nearest integer, a tie to the even one.\<close>

definition py_round :: "rat \<Rightarrow> int" where
  "py_round x =
     (let f = \<lfloor>x\<rfloor>; r = x - of_int f
      in if r < 1 / 2 then f
         else if 1 / 2 < r then f + 1
         else if even f then f else f + 1)"

text \<open>Python's \<open>round(x, 2)\<close>.\<close>

definition py_round2 :: "rat \<Rightarrow> rat" where
  "py_round2 x = of_int (py_round (x * 100)) / 100"

text \<open>
  Saving a number into a \<open>DecimalField(decimal_places=2)\<close>: Django quantizes it to two
  places, rounding half to even.
\<close>

definition quantize2 :: "rat \<Rightarrow> rat" where
  "quantize2 x = of_int (py_round (x * 100)) / 100"

text \<open>
  An aware \<open>datetime\<close>: the instant and the UTC offset of its \<open>tzinfo\<close>, both in
  microseconds. \<open>weekday()\<close> (Monday is 0) and \<open>time()\<close> read the local wall clock;
  1 January 1970 was a Thursday.
\<close>

record py_datetime =
  dt_instant :: instant
  utcoffset :: int

definition us_per_day :: int where
  "us_per_day = 86400000000"

definition weekday :: "py_datetime \<Rightarrow> int" where
  "weekday d = ((dt_instant d + utcoffset d) div us_per_day + 3) mod 7"

definition time_of :: "py_datetime \<Rightarrow> int" where
  "time_of d = (dt_instant d + utcoffset d) mod us_per_day"

text \<open>\<open>timedelta.total_seconds()\<close> of a difference of two instants.\<close>

definition total_seconds :: "int \<Rightarrow> rat" where
  "total_seconds us = of_int us / 1000000"

section \<open>Refund policy lookup (core/views.py, cancel\_booking, lines 557 to 569)\<close>

text \<open>
  \<open>CancellationPolicy.objects.filter(Q(location=booking.location) | Q(location__isnull=True),
  min_minutes_before_start__lte=minutes_before)\<close>. The threshold is an integer column and
  \<open>minutes_before\<close> is positive where the lookup runs, so comparing with the integer part
  of \<open>minutes_before\<close> and comparing with \<open>minutes_before\<close> select the same rows.
\<close>

definition policy_matches :: "pk \<Rightarrow> rat \<Rightarrow> cancellation_policy \<Rightarrow> bool" where
  "policy_matches loc minutes_before p \<longleftrightarrow>
     (policy_location p = Some loc \<or> policy_location p = None)
     \<and> of_int (min_minutes_before_start p) \<le> minutes_before"

text \<open>
  \<open>.order_by("-min_minutes_before_start").first()\<close>: the first row of the matching rows
  in descending threshold order. Rows of equal threshold stay in table order.
\<close>

definition first_policy :: "cancellation_policy list \<Rightarrow> pk \<Rightarrow> rat \<Rightarrow> cancellation_policy option" where
  "first_policy ps loc minutes_before =
     (case sort_key (\<lambda>p. - min_minutes_before_start p) (filter (policy_matches loc minutes_before) ps) of
        [] \<Rightarrow> None
      | p # _ \<Rightarrow> Some p)"

text \<open>\<open>refund_percentage = float(policy.refund_percentage) if policy else 0.0\<close>\<close>

definition resolved_refund_percentage :: "cancellation_policy list \<Rightarrow> pk \<Rightarrow> rat \<Rightarrow> rat" where
  "resolved_refund_percentage ps loc minutes_before =
     (case first_policy ps loc minutes_before of
        None \<Rightarrow> 0
      | Some p \<Rightarrow> refund_percentage p)"

section \<open>Pricing (core/views.py, create\_booking lines 165 to 185, extend\_booking lines 504 to 515)\<close>

text \<open>
  The rule loop, the same in both views:
  \<^verbatim>\<open>
  multiplier = 1.0
  rules = DynamicPricingRule.objects.filter(location=location, day_of_week=dt.weekday())
  for rule in rules:
      if rule.start_time <= dt.time() <= rule.end_time:
          multiplier = max(multiplier, float(rule.multiplier))
  \<close>
  where \<open>dt\<close> is the entry in \<open>create_booking\<close> and the new exit in
  \<open>extend_booking\<close>.
\<close>

definition dynamic_multiplier :: "pricing_rule list \<Rightarrow> parking_location \<Rightarrow> py_datetime \<Rightarrow> rat" where
  "dynamic_multiplier rs location dt =
     fold (\<lambda>rule m. if start_time rule \<le> time_of dt \<and> time_of dt \<le> end_time rule
                     then max m (multiplier rule) else m)
          (filter (\<lambda>r. rule_location r = Some (loc_id location) \<and> day_of_week r = Some (weekday dt)) rs)
          1"

text \<open>
  \<^verbatim>\<open>
  effective_rate = base_rate * multiplier
  if booking.duration_hours_booked >= 8:
      days = (booking.duration_hours_booked / 24) or 1
      booking.amount_expected = float(location.base_rate_per_day) * round(days)
  else:
      booking.amount_expected = booking.duration_hours_booked * effective_rate
  \<close>
  All operands are floats. \<open>x or 1\<close> is \<open>1\<close> only when \<open>x\<close> is zero.
\<close>

definition expected_amount :: "parking_location \<Rightarrow> rat \<Rightarrow> rat \<Rightarrow> rat" where
  "expected_amount location hours_booked mult =
     (let effective_rate = base_rate_per_hour location * mult
      in if 8 \<le> hours_booked
         then (let days = (if hours_booked / 24 = 0 then 1 else hours_booked / 24)
               in base_rate_per_day location * of_int (py_round days))
         else hours_booked * effective_rate)"

section \<open>Requests and table access\<close>

datatype http_method = GET | POST

text \<open>
  The posted \<open>new_exit\<close> of \<open>extend_booking\<close> as \<open>request.POST.get\<close> and
  \<open>parse_datetime\<close> see it: absent or empty; not in datetime format (\<open>parse_datetime\<close>
  returns \<open>None\<close>); in format but no valid date (\<open>parse_datetime\<close> raises
  \<open>ValueError\<close>); a naive datetime; an aware datetime.
\<close>

datatype posted_datetime =
  Absent
  | Malformed
  | OutOfRange
  | NaiveDatetime int
  | AwareDatetime py_datetime

datatype outcome =
  PageRendered
  | BookingCreated pk
  | BookingExtended
  | BookingCancelled
  | EntryRecorded
  | ExitRecorded
  | AlreadyRecorded

text \<open>\<open>get_object_or_404(ParkingLocation, pk=location_id, is_active=True)\<close>\<close>

definition get_location :: "db \<Rightarrow> pk \<Rightarrow> parking_location option" where
  "get_location s location_id = find (\<lambda>l. loc_id l = location_id \<and> is_active l) (locations s)"

text \<open>\<open>get_object_or_404(ParkingSlot, pk=slot_id, location=location)\<close>\<close>

definition get_slot :: "db \<Rightarrow> pk \<Rightarrow> parking_location \<Rightarrow> parking_slot option" where
  "get_slot s sid location =
     find (\<lambda>x. slot_id x = sid \<and> slot_location x = loc_id location) (slots s)"

text \<open>\<open>Vehicle.objects.filter(owner=request.user, is_default=True).first()\<close>\<close>

definition default_vehicle :: "db \<Rightarrow> pk \<Rightarrow> vehicle option" where
  "default_vehicle s user = find (\<lambda>v. vehicle_owner v = user \<and> is_default v) (vehicles s)"

text \<open>
  \<open>get_object_or_404(Booking, pk=booking_id, user=request.user,
  status=Booking.STATUS_CONFIRMED)\<close>
\<close>

definition get_confirmed_booking :: "db \<Rightarrow> pk \<Rightarrow> pk \<Rightarrow> booking option" where
  "get_confirmed_booking s booking_id user =
     find (\<lambda>b. b_id b = booking_id \<and> b_user b = user \<and> b_status b = CONFIRMED) (bookings s)"

text \<open>The key the database gives the next inserted booking: above every key in the table.\<close>

definition next_booking_id :: "db \<Rightarrow> pk" where
  "next_booking_id s = Max (set (0 # map b_id (bookings s))) + 1"

text \<open>
  Writing a booking: the three \<open>DecimalField\<close> columns are quantized to two places.
  \<open>insert_booking\<close> is the first \<open>save()\<close> of a new object, \<open>update_booking\<close> is
  \<open>save()\<close> of an object that has a key (\<open>UPDATE ... WHERE id = pk\<close>); with
  \<open>update_fields\<close> the function \<open>f\<close> sets the listed fields only.
\<close>

definition to_row :: "booking \<Rightarrow> booking" where
  "to_row b = b\<lparr>duration_hours_booked := quantize2 (duration_hours_booked b),
                amount_expected := quantize2 (amount_expected b),
                amount_paid := quantize2 (amount_paid b)\<rparr>"

definition insert_booking :: "db \<Rightarrow> booking \<Rightarrow> db" where
  "insert_booking s b = s\<lparr>bookings := bookings s @ [to_row b]\<rparr>"

definition update_booking :: "db \<Rightarrow> pk \<Rightarrow> (booking \<Rightarrow> booking) \<Rightarrow> db" where
  "update_booking s booking_id f =
     s\<lparr>bookings := map (\<lambda>b. if b_id b = booking_id then to_row (f b) else b) (bookings s)\<rparr>"

text \<open>\<open>Payment.objects.create(booking=..., amount=..., currency="INR", status=..., payment_method=...)\<close>\<close>

definition create_payment :: "db \<Rightarrow> pk \<Rightarrow> rat \<Rightarrow> payment_status \<Rightarrow> string \<Rightarrow> db" where
  "create_payment s booking_id amount st meth =
     s\<lparr>payments := payments s @
          [\<lparr>p_booking = booking_id, p_amount = quantize2 amount, p_status = st, payment_method = meth\<rparr>]\<rparr>"

definition create_extension :: "db \<Rightarrow> pk \<Rightarrow> rat \<Rightarrow> rat \<Rightarrow> db" where
  "create_extension s booking_id hours amount =
     s\<lparr>extensions := extensions s @
          [\<lparr>x_booking = booking_id, extra_hours = quantize2 hours, extra_amount = quantize2 amount\<rparr>]\<rparr>"

definition create_notification :: "db \<Rightarrow> pk \<Rightarrow> notification_type \<Rightarrow> channel \<Rightarrow> db" where
  "create_notification s user ty ch =
     s\<lparr>notifications := notifications s @ [\<lparr>n_user = user, n_type = ty, n_channel = ch\<rparr>]\<rparr>"

definition create_entry_exit_log :: "db \<Rightarrow> pk \<Rightarrow> event_type \<Rightarrow> db" where
  "create_entry_exit_log s booking_id ev =
     s\<lparr>entry_exit_logs := entry_exit_logs s @ [\<lparr>l_booking = booking_id, l_event = ev\<rparr>]\<rparr>"

definition create_fine :: "db \<Rightarrow> pk \<Rightarrow> string \<Rightarrow> rat \<Rightarrow> fine_status \<Rightarrow> db" where
  "create_fine s booking_id reason amount st =
     s\<lparr>fines := fines s @
          [\<lparr>f_booking = booking_id, f_reason = reason, f_amount = quantize2 amount, f_status = st\<rparr>]\<rparr>"

section \<open>create\_booking (core/views.py, lines 136 to 247)\<close>

text \<open>
  \<open>Booking.objects.filter(slot=slot, status=Booking.STATUS_CONFIRMED,
  entry_datetime_expected__lt=booking.exit_datetime_expected,
  exit_datetime_expected__gt=booking.entry_datetime_expected).exists()\<close>
\<close>

definition overlapping :: "db \<Rightarrow> pk \<Rightarrow> instant \<Rightarrow> instant \<Rightarrow> bool" where
  "overlapping s slot entry exit_t \<longleftrightarrow>
     (\<exists>b\<in>set (bookings s). b_slot b = slot \<and> b_status b = CONFIRMED
        \<and> entry_datetime_expected b < exit_t \<and> entry < exit_datetime_expected b)"

text \<open>
  The view. \<open>entry_in\<close> and \<open>exit_in\<close> are the two form fields as
  \<open>BookingForm\<close> cleans them: \<open>None\<close> for a missing or unreadable field, else an
  aware datetime; the form is invalid when one is missing or the exit is not after the
  entry. A booking with no vehicle cannot be saved (\<open>vehicle\<close> is not nullable). The
  QR image and the e-mail that follow the second \<open>save()\<close> change no column
  modelled here.
\<close>

definition create_booking ::
  "db \<Rightarrow> pk \<Rightarrow> pk \<Rightarrow> pk \<Rightarrow> http_method \<Rightarrow> py_datetime option \<Rightarrow> py_datetime option \<Rightarrow> instant
     \<Rightarrow> (error + outcome) \<times> db" where
  "create_booking s user location_id sid meth entry_in exit_in now =
     (case get_location s location_id of
        None \<Rightarrow> (Inl Http404, s)
      | Some location \<Rightarrow>
     (case get_slot s sid location of
        None \<Rightarrow> (Inl Http404, s)
      | Some slot \<Rightarrow>
     if meth \<noteq> POST then (Inr PageRendered, s)
     else
     (case (entry_in, exit_in) of
        (Some entry, Some exit_t) \<Rightarrow>
          if dt_instant exit_t \<le> dt_instant entry then (Inl FormInvalid, s)
          else if overlapping s (slot_id slot) (dt_instant entry) (dt_instant exit_t)
          then (Inl SlotAlreadyBooked, s)
          else
            (let duration_hours = total_seconds (dt_instant exit_t - dt_instant entry) / 3600;
                 hours_booked = py_round2 duration_hours;
                 mult = dynamic_multiplier (pricing_rules s) location entry;
                 amount = expected_amount location hours_booked mult
             in case default_vehicle s user of
                  None \<Rightarrow> (Inl IntegrityError, s)
                | Some v \<Rightarrow>
                   (let new_id = next_booking_id s;
                        pending = \<lparr>b_id = new_id, b_user = user, b_vehicle = vehicle_id v,
                                   b_location = location, b_slot = slot_id slot,
                                   b_status = PENDING_PAYMENT,
                                   entry_datetime_expected = dt_instant entry,
                                   exit_datetime_expected = dt_instant exit_t,
                                   actual_entry_datetime = None, actual_exit_datetime = None,
                                   duration_hours_booked = hours_booked,
                                   amount_expected = amount, amount_paid = 0,
                                   reservation_expires_at = Some (now + 600000000)\<rparr>;
                        s1 = insert_booking s pending;
                        s2 = create_payment s1 new_id amount SUCCESS ''DUMMY_GATEWAY'';
                        s3 = update_booking s2 new_id
                               (\<lambda>b. pending\<lparr>b_status := CONFIRMED, amount_paid := amount,
                                              reservation_expires_at := None\<rparr>)
                    in (Inr (BookingCreated new_id), s3)))
      | _ \<Rightarrow> (Inl FormInvalid, s))))"

section \<open>extend\_booking (core/views.py, lines 475 to 540)\<close>

text \<open>
  \<open>Booking.objects.filter(slot=booking.slot, status=Booking.STATUS_CONFIRMED,
  entry_datetime_expected__lt=new_exit,
  exit_datetime_expected__gt=booking.exit_datetime_expected).exclude(id=booking.id).exists()\<close>
\<close>

definition overlapping_extension :: "db \<Rightarrow> booking \<Rightarrow> instant \<Rightarrow> bool" where
  "overlapping_extension s booking new_exit \<longleftrightarrow>
     (\<exists>b\<in>set (bookings s). b_slot b = b_slot booking \<and> b_status b = CONFIRMED
        \<and> entry_datetime_expected b < new_exit
        \<and> exit_datetime_expected booking < exit_datetime_expected b
        \<and> b_id b \<noteq> b_id booking)"

text \<open>
  The view. The booking's expected exit read from the database is aware, so comparing a
  naive \<open>new_exit\<close> with it raises \<open>TypeError\<close>. The payment and the extension row
  are created before the booking's amounts are increased; \<open>booking.amount_expected\<close> is
  a \<open>Decimal\<close> and \<open>extra_amount\<close> a float. The settings set no
  \<open>ATOMIC_REQUESTS\<close> and the view opens no transaction, so rows created before an
  exception stay.
\<close>

definition extend_booking ::
  "db \<Rightarrow> pk \<Rightarrow> pk \<Rightarrow> http_method \<Rightarrow> posted_datetime \<Rightarrow> (error + outcome) \<times> db" where
  "extend_booking s user booking_id meth new_exit_in =
     (case get_confirmed_booking s booking_id user of
        None \<Rightarrow> (Inl Http404, s)
      | Some booking \<Rightarrow>
     if meth \<noteq> POST then (Inr PageRendered, s)
     else
     (case new_exit_in of
        Absent \<Rightarrow> (Inl NewExitMissing, s)
      | OutOfRange \<Rightarrow> (Inl ValueError, s)
      | Malformed \<Rightarrow> (Inl NewExitNotAfterCurrent, s)
      | NaiveDatetime _ \<Rightarrow> (Inl TypeError, s)
      | AwareDatetime new_exit \<Rightarrow>
          if dt_instant new_exit \<le> exit_datetime_expected booking
          then (Inl NewExitNotAfterCurrent, s)
          else if overlapping_extension s booking (dt_instant new_exit)
          then (Inl ExtensionWindowTaken, s)
          else
            (let hours = py_round2
                   (total_seconds (dt_instant new_exit - exit_datetime_expected booking) / 3600);
                 base_rate = base_rate_per_hour (b_location booking);
                 mult = dynamic_multiplier (pricing_rules s) (b_location booking) new_exit;
                 effective_rate = base_rate * mult;
                 amount = hours * effective_rate;
                 s1 = create_payment s (b_id booking) amount SUCCESS ''DUMMY_GATEWAY'';
                 s2 = create_extension s1 (b_id booking) hours amount
             in case py_add (PyDecimal (amount_expected booking)) (PyFloat amount) of
                  Inl e \<Rightarrow> (Inl e, s2)
                | Inr new_expected \<Rightarrow>
                   (case py_add (PyDecimal (amount_paid booking)) (PyFloat amount) of
                      Inl e \<Rightarrow> (Inl e, s2)
                    | Inr new_paid \<Rightarrow>
                        (Inr BookingExtended,
                         update_booking s2 (b_id booking)
                           (\<lambda>b. b\<lparr>exit_datetime_expected := dt_instant new_exit,
                                   amount_expected := num_value new_expected,
                                   amount_paid := num_value new_paid\<rparr>))))))"

section \<open>cancel\_booking (core/views.py, lines 543 to 617)\<close>

text \<open>
  Lines 585 to 603: the status and the paid amount are saved and a notification row of
  type \<open>BOOKING_CONFIRMATION\<close> on channel \<open>IN_APP\<close> is written.
\<close>

definition save_cancelled :: "db \<Rightarrow> booking \<Rightarrow> rat \<Rightarrow> db" where
  "save_cancelled s booking paid =
     create_notification
       (update_booking s (b_id booking) (\<lambda>b. b\<lparr>b_status := CANCELLED, amount_paid := paid\<rparr>))
       (b_user booking) BOOKING_CONFIRMATION IN_APP"

text \<open>
  Lines 572 to 606, the body of \<open>if request.method == "POST"\<close>, as a function of the
  local variable \<open>refundable_amount\<close>. \<open>booking.amount_paid\<close> is the
  \<open>Decimal\<close> read from the database.
\<close>

definition refund_and_cancel :: "db \<Rightarrow> booking \<Rightarrow> pynum \<Rightarrow> (error + outcome) \<times> db" where
  "refund_and_cancel s booking refundable =
     (if 0 < num_value refundable
      then
        (let s1 = create_payment s (b_id booking) (num_value refundable) REFUNDED ''REFUND''
         in case py_sub (PyDecimal (amount_paid booking)) refundable of
              Inl e \<Rightarrow> (Inl e, s1)
            | Inr paid \<Rightarrow>
                (Inr BookingCancelled,
                 save_cancelled s1 booking (if num_value paid < 0 then 0 else num_value paid)))
      else (Inr BookingCancelled, save_cancelled s booking (amount_paid booking)))"

text \<open>
  The view. The start-time check, the policy lookup and the refundable amount are computed
  for every request method; \<open>booking.amount_paid\<close> is a \<open>Decimal\<close> and
  \<open>refund_percentage / 100.0\<close> a float.
\<close>

definition cancel_booking ::
  "db \<Rightarrow> pk \<Rightarrow> pk \<Rightarrow> http_method \<Rightarrow> instant \<Rightarrow> (error + outcome) \<times> db" where
  "cancel_booking s user booking_id meth now =
     (case get_confirmed_booking s booking_id user of
        None \<Rightarrow> (Inl Http404, s)
      | Some booking \<Rightarrow>
     if entry_datetime_expected booking \<le> now then (Inl CancelOnlyBeforeStart, s)
     else
       (let minutes_before = total_seconds (entry_datetime_expected booking - now) / 60;
            pct = resolved_refund_percentage (cancellation_policies s)
                    (loc_id (b_location booking)) minutes_before
        in case py_mul (PyDecimal (amount_paid booking)) (PyFloat (pct / 100)) of
             Inl e \<Rightarrow> (Inl e, s)
           | Inr refundable \<Rightarrow>
               if meth \<noteq> POST then (Inr PageRendered, s)
               else refund_and_cancel s booking refundable))"

section \<open>staff\_scan\_qr (core/views.py, lines 426 to 472)\<close>

text \<open>
  \<open>code\<close> is the posted code after \<open>int(code)\<close>: \<open>None\<close> when that raises
  \<open>ValueError\<close> or gives a negative number, which is the key of no booking. The
  booking is read by its key alone, whatever its status
  (\<open>Booking.objects.get(id=booking_id)\<close>).
\<close>

definition staff_scan_qr :: "db \<Rightarrow> http_method \<Rightarrow> pk option \<Rightarrow> instant \<Rightarrow> (error + outcome) \<times> db" where
  "staff_scan_qr s meth code now =
     (if meth \<noteq> POST then (Inr PageRendered, s)
      else
      (case code of
         None \<Rightarrow> (Inl InvalidBookingCode, s)
       | Some booking_id \<Rightarrow>
      (case find (\<lambda>b. b_id b = booking_id) (bookings s) of
         None \<Rightarrow> (Inl InvalidBookingCode, s)
       | Some booking \<Rightarrow>
           if actual_entry_datetime booking = None
           then (Inr EntryRecorded,
                 create_entry_exit_log
                   (update_booking s (b_id booking) (\<lambda>b. b\<lparr>actual_entry_datetime := Some now\<rparr>))
                   (b_id booking) ENTRY)
           else if actual_exit_datetime booking = None
           then (Inr ExitRecorded,
                 create_entry_exit_log
                   (update_booking s (b_id booking)
                      (\<lambda>b. b\<lparr>actual_exit_datetime := Some now, b_status := COMPLETED\<rparr>))
                   (b_id booking) EXIT)
           else (Inr AlreadyRecorded, s))))"

section \<open>The two management commands\<close>

text \<open>
  core/management/commands/cleanup\_reservations.py, \<open>Command.handle\<close>: every booking in
  \<open>PENDING_PAYMENT\<close> whose \<open>reservation_expires_at\<close> is before now is cancelled.
\<close>

definition cleanup_reservations :: "db \<Rightarrow> instant \<Rightarrow> db" where
  "cleanup_reservations s now =
     fold (\<lambda>booking t. update_booking t (b_id booking) (\<lambda>b. b\<lparr>b_status := CANCELLED\<rparr>))
          (filter (\<lambda>b. b_status b = PENDING_PAYMENT
                        \<and> (case reservation_expires_at b of None \<Rightarrow> False | Some e \<Rightarrow> e < now))
                  (bookings s))
          s"

text \<open>
  core/management/commands/process\_parking\_automation.py, \<open>Command.handle\<close>. First the
  reminders: one notification row for every confirmed booking that ends within the next
  thirty minutes.
\<close>

definition send_reminders :: "db \<Rightarrow> instant \<Rightarrow> db" where
  "send_reminders s now =
     fold (\<lambda>booking t. create_notification t (b_user booking) EXPIRY_REMINDER EMAIL)
          (filter (\<lambda>b. b_status b = CONFIRMED \<and> now \<le> exit_datetime_expected b
                        \<and> exit_datetime_expected b \<le> now + 1800000000)
                  (bookings s))
          s"

text \<open>\<open>booking.fines.filter(status=Fine.STATUS_UNPAID).exists()\<close>\<close>

definition has_unpaid_fine :: "db \<Rightarrow> pk \<Rightarrow> bool" where
  "has_unpaid_fine s booking_id \<longleftrightarrow>
     (\<exists>f\<in>set (fines s). f_booking f = booking_id \<and> f_status f = UNPAID)"

text \<open>The body of the overtime loop, for one booking.\<close>

definition overtime_step :: "booking \<Rightarrow> db \<Rightarrow> db" where
  "overtime_step booking s =
     (if has_unpaid_fine s (b_id booking) then s
      else create_notification
             (create_fine s (b_id booking) ''Overstay beyond booked time''
                (base_rate_per_hour (b_location booking)) UNPAID)
             (b_user booking) FINE_ALERT EMAIL)"

definition overtime_bookings :: "db \<Rightarrow> instant \<Rightarrow> booking list" where
  "overtime_bookings s now =
     filter (\<lambda>b. b_status b = CONFIRMED \<and> exit_datetime_expected b < now) (bookings s)"

definition process_parking_automation :: "db \<Rightarrow> instant \<Rightarrow> db" where
  "process_parking_automation s now =
     (let s1 = send_reminders s now
      in fold overtime_step (overtime_bookings s1 now) s1)"

section \<open>Sequences of operations\<close>

datatype operation =
  Create pk pk pk http_method "py_datetime option" "py_datetime option" instant
  | Extend pk pk http_method posted_datetime
  | Cancel pk pk http_method instant
  | Scan http_method "pk option" instant
  | ExpirySweep instant
  | OvertimeSweep instant

fun apply_operation :: "operation \<Rightarrow> db \<Rightarrow> db" where
  "apply_operation (Create user location_id sid meth entry_in exit_in now) s =
     snd (create_booking s user location_id sid meth entry_in exit_in now)"
| "apply_operation (Extend user booking_id meth new_exit_in) s =
     snd (extend_booking s user booking_id meth new_exit_in)"
| "apply_operation (Cancel user booking_id meth now) s =
     snd (cancel_booking s user booking_id meth now)"
| "apply_operation (Scan meth code now) s = snd (staff_scan_qr s meth code now)"
| "apply_operation (ExpirySweep now) s = cleanup_reservations s now"
| "apply_operation (OvertimeSweep now) s = process_parking_automation s now"

definition run :: "operation list \<Rightarrow> db \<Rightarrow> db" where
  "run ops s = fold apply_operation ops s"

section \<open>Properties as predicates\<close>

text \<open>
  The pricing rule of the specification, in its words: the maximum over 1.0 and the
  multipliers of all rules whose location is this location or global, whose day of week is
  the weekday of the timestamp or any, and whose time window contains the time of the
  timestamp.
\<close>

definition spec_rule_matches :: "parking_location \<Rightarrow> py_datetime \<Rightarrow> pricing_rule \<Rightarrow> bool" where
  "spec_rule_matches location dt r \<longleftrightarrow>
     (rule_location r = Some (loc_id location) \<or> rule_location r = None)
     \<and> (day_of_week r = Some (weekday dt) \<or> day_of_week r = None)
     \<and> start_time r \<le> time_of dt \<and> time_of dt \<le> end_time r"

definition spec_multiplier :: "pricing_rule list \<Rightarrow> parking_location \<Rightarrow> py_datetime \<Rightarrow> rat" where
  "spec_multiplier rs location dt =
     Max (insert 1 (multiplier ` set (filter (spec_rule_matches location dt) rs)))"

text \<open>A cancellation policy is in scope of a location: it is the location's own or global.\<close>

definition policy_applies :: "pk \<Rightarrow> cancellation_policy \<Rightarrow> bool" where
  "policy_applies loc p \<longleftrightarrow> policy_location p = Some loc \<or> policy_location p = None"

text \<open>The half-open window of a booking, and the invariant of the bookings table.\<close>

definition window :: "booking \<Rightarrow> instant set" where
  "window b = {entry_datetime_expected b ..< exit_datetime_expected b}"

definition no_double_booking :: "db \<Rightarrow> bool" where
  "no_double_booking s \<longleftrightarrow>
     distinct (map b_id (bookings s))
     \<and> (\<forall>a\<in>set (bookings s). \<forall>b\<in>set (bookings s).
          b_id a \<noteq> b_id b \<and> b_slot a = b_slot b
          \<and> b_status a = CONFIRMED \<and> b_status b = CONFIRMED
          \<longrightarrow> window a \<inter> window b = {})"

text \<open>
  From \<open>s\<close> to \<open>t\<close> the payments table only grows, and every added row has a
  status in \<open>sts\<close>.
\<close>

definition adds_payments :: "db \<Rightarrow> db \<Rightarrow> payment_status set \<Rightarrow> bool" where
  "adds_payments s t sts \<longleftrightarrow>
     (\<exists>added. payments t = payments s @ added \<and> (\<forall>p\<in>set added. p_status p \<in> sts))"

text \<open>The unpaid fines of a booking.\<close>

definition unpaid_fines :: "db \<Rightarrow> pk \<Rightarrow> fine list" where
  "unpaid_fines s booking_id =
     filter (\<lambda>f. f_booking f = booking_id \<and> f_status f = UNPAID) (fines s)"

section \<open>Example data\<close>

definition at_minute :: "int \<Rightarrow> py_datetime" where
  "at_minute m = \<lparr>dt_instant = m * 60000000, utcoffset = 0\<rparr>"

definition at_hour :: "int \<Rightarrow> py_datetime" where
  "at_hour h = at_minute (h * 60)"

text \<open>A location with hourly rate 100 and daily rate 600, one slot, one user with a vehicle.\<close>

definition loc_a :: parking_location where
  "loc_a = \<lparr>loc_id = 1, base_rate_per_hour = 100, base_rate_per_day = 600, is_active = True\<rparr>"

definition db_a :: db where
  "db_a = empty_db\<lparr>locations := [loc_a],
            slots := [\<lparr>slot_id = 1, slot_location = 1\<rparr>],
            vehicles := [\<lparr>vehicle_id = 1, vehicle_owner = 1, is_default = True\<rparr>]\<rparr>"

text \<open>
  A rule with multiplier 1.5 from 09:00 to 12:00 on the weekday of the epoch day
  (Thursday, 3): once global, once of the location with no day of week.
\<close>

definition global_rule :: pricing_rule where
  "global_rule = \<lparr>rule_location = None, day_of_week = Some 3,
     start_time = 32400000000, end_time = 43200000000, multiplier = 3 / 2\<rparr>"

definition any_day_rule :: pricing_rule where
  "any_day_rule = \<lparr>rule_location = Some 1, day_of_week = None,
     start_time = 32400000000, end_time = 43200000000, multiplier = 3 / 2\<rparr>"

text \<open>A global policy of 100 percent from 0 minutes before the start.\<close>

definition db_full_refund :: db where
  "db_full_refund = db_a\<lparr>cancellation_policies :=
     [\<lparr>policy_location = None, min_minutes_before_start = 0, refund_percentage = 100\<rparr>]\<rparr>"

text \<open>The same database after user 1 has booked slot 1 from 09:00 to 11:00.\<close>

definition db_booked :: db where
  "db_booked =
     snd (create_booking db_full_refund 1 1 1 POST (Some (at_hour 9)) (Some (at_hour 11)) 0)"

text \<open>The policies of the specification's scenario: global 60 minutes 50 percent, location 30 minutes 20 percent.\<close>

definition scenario_policies :: "cancellation_policy list" where
  "scenario_policies =
     [\<lparr>policy_location = None, min_minutes_before_start = 60, refund_percentage = 50\<rparr>,
      \<lparr>policy_location = Some 1, min_minutes_before_start = 30, refund_percentage = 20\<rparr>]"

text \<open>Two global policies where the nearer threshold refunds more.\<close>

definition rising_policies :: "cancellation_policy list" where
  "rising_policies =
     [\<lparr>policy_location = None, min_minutes_before_start = 60, refund_percentage = 20\<rparr>,
      \<lparr>policy_location = None, min_minutes_before_start = 30, refund_percentage = 50\<rparr>]"

text \<open>
  A booking left in \<open>PENDING_PAYMENT\<close> with its reservation expired at minute 10, never
  scanned.
\<close>

definition pending_booking :: booking where
  "pending_booking = \<lparr>b_id = 1, b_user = 1, b_vehicle = 1, b_location = loc_a, b_slot = 1,
     b_status = PENDING_PAYMENT,
     entry_datetime_expected = 32400000000, exit_datetime_expected = 39600000000,
     actual_entry_datetime = None, actual_exit_datetime = None,
     duration_hours_booked = 2, amount_expected = 200, amount_paid = 0,
     reservation_expires_at = Some 600000000\<rparr>"

definition db_pending :: db where
  "db_pending = db_a\<lparr>bookings := [pending_booking]\<rparr>"

section \<open>Evaluation\<close>

lemma floor_rat_numeral_div:
  "\<lfloor>numeral a / numeral b :: rat\<rfloor> = numeral a div numeral b"
  by (metis floor_divide_of_int_eq of_int_numeral)

lemmas number_defs = total_seconds_def py_round2_def py_round_def quantize2_def
  floor_rat_numeral_div Let_def weekday_def time_of_def us_per_day_def

lemmas table_defs = get_location_def get_slot_def default_vehicle_def get_confirmed_booking_def
  next_booking_id_def insert_booking_def update_booking_def to_row_def create_payment_def
  create_extension_def create_notification_def create_entry_exit_log_def create_fine_def

lemmas example_defs = at_minute_def at_hour_def loc_a_def db_a_def empty_db_def global_rule_def
  any_day_rule_def db_full_refund_def scenario_policies_def rising_policies_def
  pending_booking_def db_pending_def db_booked_def

section \<open>Refund policy lookup\<close>

lemma sort_key_head:
  assumes "sort_key f xs = y # ys"
  shows "y \<in> set xs \<and> (\<forall>x\<in>set xs. f y \<le> f x)"
proof -
  have s: "set (sort_key f xs) = set xs" by simp
  have "sorted (map f (sort_key f xs))" by (rule sorted_sort_key)
  with assms have "\<forall>x\<in>set ys. f y \<le> f x" by simp
  moreover have "y \<in> set xs" using s assms by auto
  moreover have "set xs = insert y (set ys)" using s assms by auto
  ultimately show ?thesis by auto
qed

lemma first_policy_None:
  "first_policy ps loc m = None \<longleftrightarrow> (\<forall>p\<in>set ps. \<not> policy_matches loc m p)"
proof -
  let ?ms = "filter (policy_matches loc m) ps"
  let ?k = "\<lambda>p. - min_minutes_before_start p"
  have "first_policy ps loc m = None \<longleftrightarrow> sort_key ?k ?ms = []"
    by (simp add: first_policy_def split: list.splits)
  also have "\<dots> \<longleftrightarrow> ?ms = []"
    by (metis length_0_conv length_sort)
  also have "\<dots> \<longleftrightarrow> (\<forall>p\<in>set ps. \<not> policy_matches loc m p)"
    by (simp add: filter_empty_conv)
  finally show ?thesis .
qed

lemma first_policy_Some:
  assumes "first_policy ps loc m = Some p"
  shows "p \<in> set ps" and "policy_matches loc m p"
    and "\<forall>q\<in>set ps. policy_matches loc m q
           \<longrightarrow> min_minutes_before_start q \<le> min_minutes_before_start p"
proof -
  let ?ms = "filter (policy_matches loc m) ps"
  let ?k = "\<lambda>p. - min_minutes_before_start p"
  from assms obtain ys where e: "sort_key ?k ?ms = p # ys"
    by (auto simp: first_policy_def split: list.splits)
  from sort_key_head[OF e] have y: "p \<in> set ?ms" and le: "\<forall>x\<in>set ?ms. ?k p \<le> ?k x"
    by auto
  from y show "p \<in> set ps" and "policy_matches loc m p" by auto
  from le show "\<forall>q\<in>set ps. policy_matches loc m q
      \<longrightarrow> min_minutes_before_start q \<le> min_minutes_before_start p"
    by auto
qed

text \<open>
  C4. The percentage that \<open>cancel_booking\<close> resolves is 0 when no policy in scope of the
  location (its own or global) has a threshold at or below the minutes before the start;
  otherwise it is the percentage of such a policy whose threshold is the largest among
  them.
\<close>

theorem refund_policy_selection:
  "((\<forall>p\<in>set ps. \<not> policy_matches loc m p) \<longrightarrow> resolved_refund_percentage ps loc m = 0) \<and>
   ((\<exists>p\<in>set ps. policy_matches loc m p) \<longrightarrow>
     (\<exists>p\<in>set ps. policy_matches loc m p
        \<and> (\<forall>q\<in>set ps. policy_matches loc m q
              \<longrightarrow> min_minutes_before_start q \<le> min_minutes_before_start p)
        \<and> resolved_refund_percentage ps loc m = refund_percentage p))"
proof (cases "first_policy ps loc m")
  case None
  then show ?thesis
    using first_policy_None[of ps loc m] by (simp add: resolved_refund_percentage_def)
next
  case (Some p)
  have r: "resolved_refund_percentage ps loc m = refund_percentage p"
    using Some by (simp add: resolved_refund_percentage_def)
  from first_policy_Some[OF Some] r show ?thesis by blast
qed

theorem refund_policy_selection_witness:
  "policy_matches 1 45 (scenario_policies ! 1)
   \<and> \<not> policy_matches 1 45 (scenario_policies ! 0)
   \<and> resolved_refund_percentage scenario_policies 1 45 = 20"
  using refund_policy_selection[of scenario_policies 1 45]
  by (simp add: scenario_policies_def policy_matches_def)

text \<open>
  C6, as amended. When, among the policies in scope of the location, the refund percentage
  is never negative and never falls as the threshold rises, the resolved percentage does
  not rise as the minutes before the start fall.
\<close>

theorem refund_monotone_in_lead_time:
  assumes mono: "\<forall>p\<in>set ps. \<forall>q\<in>set ps. policy_applies loc p \<and> policy_applies loc q
            \<and> min_minutes_before_start p \<le> min_minutes_before_start q
            \<longrightarrow> refund_percentage p \<le> refund_percentage q"
    and nonneg: "\<forall>p\<in>set ps. policy_applies loc p \<longrightarrow> 0 \<le> refund_percentage p"
    and le: "m2 \<le> m1"
  shows "resolved_refund_percentage ps loc m2 \<le> resolved_refund_percentage ps loc m1"
proof (cases "first_policy ps loc m2")
  case None
  then have r2: "resolved_refund_percentage ps loc m2 = 0"
    by (simp add: resolved_refund_percentage_def)
  show ?thesis
  proof (cases "first_policy ps loc m1")
    case None
    then show ?thesis using r2 by (simp add: resolved_refund_percentage_def)
  next
    case (Some p1)
    from first_policy_Some(1,2)[OF Some] nonneg have "0 \<le> refund_percentage p1"
      by (auto simp: policy_applies_def policy_matches_def)
    then show ?thesis using r2 Some by (simp add: resolved_refund_percentage_def)
  qed
next
  case (Some p2)
  note p2 = first_policy_Some[OF Some]
  from p2(2) le have m1p2: "policy_matches loc m1 p2"
    by (auto simp: policy_matches_def)
  with p2(1) have "first_policy ps loc m1 \<noteq> None"
    using first_policy_None[of ps loc m1] by blast
  then obtain p1 where S1: "first_policy ps loc m1 = Some p1" by auto
  note p1 = first_policy_Some[OF S1]
  from p1(3) p2(1) m1p2 have "min_minutes_before_start p2 \<le> min_minutes_before_start p1"
    by blast
  moreover have "policy_applies loc p1" "policy_applies loc p2"
    using p1(2) p2(2) by (auto simp: policy_applies_def policy_matches_def)
  ultimately have "refund_percentage p2 \<le> refund_percentage p1"
    using mono p1(1) p2(1) by blast
  then show ?thesis using Some S1 by (simp add: resolved_refund_percentage_def)
qed

theorem refund_monotone_in_lead_time_witness:
  "resolved_refund_percentage scenario_policies 1 45
     \<le> resolved_refund_percentage scenario_policies 1 70"
proof -
  have mono: "\<forall>p\<in>set scenario_policies. \<forall>q\<in>set scenario_policies.
       policy_applies 1 p \<and> policy_applies 1 q
       \<and> min_minutes_before_start p \<le> min_minutes_before_start q
       \<longrightarrow> refund_percentage p \<le> refund_percentage q"
    by (simp add: scenario_policies_def policy_applies_def)
  have nonneg: "\<forall>p\<in>set scenario_policies. policy_applies 1 p \<longrightarrow> 0 \<le> refund_percentage p"
    by (simp add: scenario_policies_def policy_applies_def)
  have le: "(45::rat) \<le> 70" by simp
  show ?thesis by (rule refund_monotone_in_lead_time[OF mono nonneg le])
qed

text \<open>
  C6 as stated fails: with global policies (60 minutes, 20 percent) and (30 minutes,
  50 percent), 70 minutes before the start resolve to 20 percent and 45 minutes to 50.
\<close>

theorem refund_not_monotone_counterexample:
  "(0::rat) \<le> 45 \<and> (45::rat) \<le> 70
   \<and> resolved_refund_percentage rising_policies 1 70 = 20
   \<and> resolved_refund_percentage rising_policies 1 45 = 50
   \<and> \<not> resolved_refund_percentage rising_policies 1 45
         \<le> resolved_refund_percentage rising_policies 1 70"
  by (simp add: rising_policies_def resolved_refund_percentage_def first_policy_def
      policy_matches_def)

section \<open>Pricing\<close>

text \<open>
  C2. At hourly rate 100 and daily rate 600 with no pricing rules, the booking from 08:00
  to 18:00 is created and confirmed with expected amount 0, paid amount 0 and a payment of
  0: the day count \<open>round(10 / 24)\<close> is 0, and \<open>or 1\<close> acts before the rounding, on a
  quotient that is not zero.
\<close>

theorem ten_hours_charged_nothing:
  "expected_amount loc_a 10 1 = 0
   \<and> fst (create_booking db_a 1 1 1 POST (Some (at_hour 8)) (Some (at_hour 18)) 0)
       = Inr (BookingCreated 1)
   \<and> map (\<lambda>b. (b_status b, duration_hours_booked b, amount_expected b, amount_paid b))
        (bookings (snd (create_booking db_a 1 1 1 POST (Some (at_hour 8)) (Some (at_hour 18)) 0)))
      = [(CONFIRMED, 10, 0, 0)]
   \<and> map (\<lambda>p. (p_status p, p_amount p))
        (payments (snd (create_booking db_a 1 1 1 POST (Some (at_hour 8)) (Some (at_hour 18)) 0)))
      = [(SUCCESS, 0)]"
  by (simp add: create_booking_def overlapping_def dynamic_multiplier_def expected_amount_def
      number_defs table_defs example_defs)

text \<open>
  C3. For an entry at 09:30 on the epoch day, a global rule and a rule of the location with
  no day of week, both 09:00 to 12:00 with multiplier 1.5, give 1.5 by the rule of the
  specification and 1 by the loop of the views, and the hour from 09:30 to 10:30 is charged
  100.
\<close>

theorem global_and_any_day_rules_ignored:
  "spec_multiplier [global_rule] loc_a (at_minute 570) = 3 / 2
   \<and> dynamic_multiplier [global_rule] loc_a (at_minute 570) = 1
   \<and> spec_multiplier [any_day_rule] loc_a (at_minute 570) = 3 / 2
   \<and> dynamic_multiplier [any_day_rule] loc_a (at_minute 570) = 1
   \<and> map amount_expected
        (bookings (snd (create_booking (db_a\<lparr>pricing_rules := [global_rule, any_day_rule]\<rparr>)
           1 1 1 POST (Some (at_minute 570)) (Some (at_minute 630)) 0)))
      = [100]"
  by (simp add: create_booking_def overlapping_def dynamic_multiplier_def expected_amount_def
      spec_multiplier_def spec_rule_matches_def number_defs table_defs example_defs)

section \<open>Booking status\<close>

text \<open>
  C5. A booking in \<open>PENDING_PAYMENT\<close> whose reservation has expired is cancelled by the
  expiry sweep; the first scan of its code records an entry and leaves it cancelled; the
  second scan records the exit and sets it to \<open>COMPLETED\<close>.
\<close>

theorem cancelled_booking_scanned_to_completed:
  "map b_status (bookings (run [ExpirySweep 700000000] db_pending)) = [CANCELLED]
   \<and> map b_status
        (bookings (run [ExpirySweep 700000000, Scan POST (Some 1) 800000000] db_pending))
      = [CANCELLED]
   \<and> map b_status
        (bookings (run [ExpirySweep 700000000, Scan POST (Some 1) 800000000,
                        Scan POST (Some 1) 900000000] db_pending))
      = [COMPLETED]"
  by (simp add: run_def staff_scan_qr_def cleanup_reservations_def number_defs table_defs
      example_defs)

section \<open>Cancellation\<close>

text \<open>
  C7. With a global policy of 100 percent from 0 minutes, user 1 books 09:00 to 11:00 and is
  confirmed with 200 expected and 200 paid; the cancellation posted at time 0, before the
  start, raises \<open>TypeError\<close> and leaves the database as it was.
\<close>

theorem full_refund_cancel_raises:
  "fst (create_booking db_full_refund 1 1 1 POST (Some (at_hour 9)) (Some (at_hour 11)) 0)
     = Inr (BookingCreated 1)
   \<and> map (\<lambda>b. (b_status b, amount_expected b, amount_paid b)) (bookings db_booked)
      = [(CONFIRMED, 200, 200)]
   \<and> cancel_booking db_booked 1 1 POST 0 = (Inl TypeError, db_booked)"
  by (simp add: create_booking_def cancel_booking_def overlapping_def dynamic_multiplier_def
      expected_amount_def resolved_refund_percentage_def first_policy_def policy_matches_def
      number_defs table_defs example_defs)

text \<open>
  C9. When the confirmed booking of the user that the view loads has its expected entry at
  or before now, the cancellation is rejected with the message that only bookings before
  their start can be cancelled, and the database is unchanged, for every request method.
\<close>

theorem cancel_after_start_rejected:
  assumes "get_confirmed_booking s booking_id user = Some booking"
    and "entry_datetime_expected booking \<le> now"
  shows "cancel_booking s user booking_id meth now = (Inl CancelOnlyBeforeStart, s)"
  using assms by (simp add: cancel_booking_def)

theorem cancel_after_start_rejected_witness:
  "cancel_booking db_booked 1 1 POST 32400000000 = (Inl CancelOnlyBeforeStart, db_booked)"
proof -
  have g: "get_confirmed_booking db_booked 1 1 = Some (hd (bookings db_booked))"
    by (simp add: create_booking_def overlapping_def dynamic_multiplier_def
        expected_amount_def number_defs table_defs example_defs)
  have e: "entry_datetime_expected (hd (bookings db_booked)) \<le> 32400000000"
    by (simp add: create_booking_def overlapping_def dynamic_multiplier_def
        expected_amount_def number_defs table_defs example_defs)
  show ?thesis by (rule cancel_after_start_rejected[OF g e])
qed

section \<open>Rows written by the operations\<close>

lemma payments_simps [simp]:
  "payments (insert_booking s b) = payments s"
  "payments (update_booking s i f) = payments s"
  "payments (create_payment s i a st m) = payments s @ [\<lparr>p_booking = i, p_amount = quantize2 a, p_status = st, payment_method = m\<rparr>]"
  "payments (create_extension s i h a) = payments s"
  "payments (create_notification s u ty ch) = payments s"
  "payments (create_entry_exit_log s i ev) = payments s"
  "payments (create_fine s i r a fs) = payments s"
  by (simp_all add: table_defs)

lemma fold_keeps:
  assumes "\<And>x t. g (f x t) = g t"
  shows "g (fold f xs s) = g s"
  by (induction xs arbitrary: s) (simp_all add: assms)

lemma payments_cleanup_reservations: "payments (cleanup_reservations s now) = payments s"
  unfolding cleanup_reservations_def by (rule fold_keeps) simp

lemma payments_send_reminders: "payments (send_reminders s now) = payments s"
  unfolding send_reminders_def by (rule fold_keeps) simp

lemma payments_process_parking_automation: "payments (process_parking_automation s now) = payments s"
proof -
  have "\<And>bs t. payments (fold overtime_step bs t) = payments t"
    by (rule fold_keeps) (simp add: overtime_step_def)
  then show ?thesis
    by (simp add: process_parking_automation_def Let_def payments_send_reminders)
qed

lemma adds_payments_same: "payments t = payments s \<Longrightarrow> adds_payments s t sts"
  by (simp add: adds_payments_def)

lemma adds_payments_mono: "adds_payments s t A \<Longrightarrow> A \<subseteq> B \<Longrightarrow> adds_payments s t B"
  unfolding adds_payments_def by blast

lemma refund_and_cancel_payments:
  "adds_payments s (snd (refund_and_cancel s booking refundable)) {REFUNDED}"
  by (auto simp: adds_payments_def refund_and_cancel_def save_cancelled_def Let_def split: sum.splits)

lemma cancel_booking_payments:
  "adds_payments s (snd (cancel_booking s user booking_id meth now)) {REFUNDED}"
  using refund_and_cancel_payments
  by (auto simp: cancel_booking_def Let_def adds_payments_same split: option.splits sum.splits)

lemma create_booking_payments:
  "adds_payments s (snd (create_booking s user location_id sid meth entry_in exit_in now)) {SUCCESS}"
  by (auto simp: adds_payments_def create_booking_def Let_def split: option.splits)

lemma extend_booking_payments:
  "adds_payments s (snd (extend_booking s user booking_id meth new_exit_in)) {SUCCESS}"
  by (auto simp: adds_payments_def extend_booking_def Let_def simp del: py_add.simps
      split: option.splits sum.splits posted_datetime.splits)

lemma staff_scan_qr_payments:
  "adds_payments s (snd (staff_scan_qr s meth code now)) {}"
  by (auto simp: adds_payments_def staff_scan_qr_def split: option.splits)

text \<open>
  C10. Every payment row that \<open>cancel_booking\<close> adds has status \<open>REFUNDED\<close>, and so
  has every row that its POST block adds for any refundable amount, a part of the paid
  amount included; every row that any operation adds has status \<open>SUCCESS\<close> or
  \<open>REFUNDED\<close>, so none has \<open>PARTIAL_REFUND\<close>.
\<close>

theorem refunds_are_marked_refunded:
  "adds_payments s (snd (cancel_booking s user booking_id meth now)) {REFUNDED}
   \<and> adds_payments s (snd (refund_and_cancel s booking refundable)) {REFUNDED}
   \<and> adds_payments s (apply_operation op s) {SUCCESS, REFUNDED}"
proof -
  have "adds_payments s (apply_operation op s) {SUCCESS, REFUNDED}"
  proof (cases op)
    case (Create u l sl m e x n)
    then show ?thesis using adds_payments_mono[OF create_booking_payments] by simp
  next
    case (Extend u b m x)
    then show ?thesis using adds_payments_mono[OF extend_booking_payments] by simp
  next
    case (Cancel u b m n)
    then show ?thesis using adds_payments_mono[OF cancel_booking_payments] by simp
  next
    case (Scan m c n)
    then show ?thesis using adds_payments_mono[OF staff_scan_qr_payments] by simp
  next
    case (ExpirySweep n)
    then show ?thesis by (simp add: adds_payments_same payments_cleanup_reservations)
  next
    case (OvertimeSweep n)
    then show ?thesis by (simp add: adds_payments_same payments_process_parking_automation)
  qed
  then show ?thesis using cancel_booking_payments refund_and_cancel_payments by blast
qed

theorem refunds_are_marked_refunded_witness:
  "map p_status (payments (snd (refund_and_cancel db_booked (hd (bookings db_booked)) (PyDecimal 100))))
     = [SUCCESS, REFUNDED]
   \<and> map p_amount (payments (snd (refund_and_cancel db_booked (hd (bookings db_booked)) (PyDecimal 100))))
     = [200, 100]
   \<and> map (\<lambda>b. (b_status b, amount_paid b)) (bookings (snd (refund_and_cancel db_booked (hd (bookings db_booked)) (PyDecimal 100))))
     = [(CANCELLED, 100)]"
  using refunds_are_marked_refunded[of db_booked 1 1 POST 0 "hd (bookings db_booked)" "PyDecimal 100" "Cancel 1 1 POST 0"]
  by (simp add: refund_and_cancel_def save_cancelled_def create_booking_def overlapping_def dynamic_multiplier_def
      expected_amount_def number_defs table_defs example_defs)

section \<open>Overtime fines\<close>

lemma fines_simps [simp]:
  "fines (insert_booking s b) = fines s"
  "fines (update_booking s i f) = fines s"
  "fines (create_payment s i a st m) = fines s"
  "fines (create_extension s i h a) = fines s"
  "fines (create_notification s u ty ch) = fines s"
  "fines (create_entry_exit_log s i ev) = fines s"
  "fines (create_fine s i r a fs) = fines s @ [\<lparr>f_booking = i, f_reason = r, f_amount = quantize2 a, f_status = fs\<rparr>]"
  by (simp_all add: table_defs)

lemma bookings_simps [simp]:
  "bookings (insert_booking s b) = bookings s @ [to_row b]"
  "bookings (update_booking s i f) = map (\<lambda>b. if b_id b = i then to_row (f b) else b) (bookings s)"
  "bookings (create_payment s i a st m) = bookings s"
  "bookings (create_extension s i h a) = bookings s"
  "bookings (create_notification s u ty ch) = bookings s"
  "bookings (create_entry_exit_log s i ev) = bookings s"
  "bookings (create_fine s i r a fs) = bookings s"
  by (simp_all add: table_defs)

lemma has_unpaid_fine_iff: "has_unpaid_fine s i \<longleftrightarrow> unpaid_fines s i \<noteq> []"
  by (auto simp: has_unpaid_fine_def unpaid_fines_def filter_empty_conv)

lemma unpaid_fines_cong: "fines t = fines s \<Longrightarrow> unpaid_fines t i = unpaid_fines s i"
  by (simp add: unpaid_fines_def)

lemma bookings_overtime_step [simp]: "bookings (overtime_step b t) = bookings t"
  by (simp add: overtime_step_def)

lemma unpaid_fines_overtime_step:
  "unpaid_fines (overtime_step b t) i =
     (if i = b_id b \<and> unpaid_fines t i = []
      then [\<lparr>f_booking = i, f_reason = ''Overstay beyond booked time'',
             f_amount = quantize2 (base_rate_per_hour (b_location b)), f_status = UNPAID\<rparr>]
      else unpaid_fines t i)"
  by (auto simp: overtime_step_def has_unpaid_fine_iff) (auto simp: unpaid_fines_def)

lemma fold_overtime_step_count:
  "length (unpaid_fines (fold overtime_step bs t) i) =
     (if unpaid_fines t i = [] \<and> i \<in> b_id ` set bs then 1 else length (unpaid_fines t i))"
proof (induction bs arbitrary: t)
  case Nil
  then show ?case by simp
next
  case (Cons b bs)
  show ?case
    by (simp add: Cons.IH unpaid_fines_overtime_step)
qed

lemma fold_overtime_step_new:
  "\<exists>new. fines (fold overtime_step bs t) = fines t @ new
     \<and> (\<forall>f\<in>set new. f_status f = UNPAID \<and> unpaid_fines t (f_booking f) = []
          \<and> (\<exists>b\<in>set bs. b_id b = f_booking f
                \<and> f_amount f = quantize2 (base_rate_per_hour (b_location b))))"
proof (induction bs arbitrary: t)
  case Nil
  then show ?case by simp
next
  case (Cons b bs)
  from Cons.IH[of "overtime_step b t"] obtain new where
    n: "fines (fold overtime_step bs (overtime_step b t)) = fines (overtime_step b t) @ new"
    and p: "\<forall>f\<in>set new. f_status f = UNPAID \<and> unpaid_fines (overtime_step b t) (f_booking f) = []
          \<and> (\<exists>b\<in>set bs. b_id b = f_booking f
                \<and> f_amount f = quantize2 (base_rate_per_hour (b_location b)))"
    by blast
  have p': "\<forall>f\<in>set new. unpaid_fines t (f_booking f) = []"
    using p by (auto simp: unpaid_fines_overtime_step split: if_splits)
  show ?case
  proof (cases "has_unpaid_fine t (b_id b)")
    case True
    then have "overtime_step b t = t" by (simp add: overtime_step_def)
    with n p show ?thesis by auto
  next
    case False
    let ?f = "\<lparr>f_booking = b_id b, f_reason = ''Overstay beyond booked time'',
             f_amount = quantize2 (base_rate_per_hour (b_location b)), f_status = UNPAID\<rparr>"
    from False have "fines (overtime_step b t) = fines t @ [?f]"
      by (simp add: overtime_step_def)
    with n have "fines (fold overtime_step (b # bs) t) = fines t @ (?f # new)" by simp
    moreover have "unpaid_fines t (b_id b) = []" using False by (simp add: has_unpaid_fine_iff)
    ultimately show ?thesis using p p' by (intro exI[of _ "?f # new"]) auto
  qed
qed

lemma fold_overtime_step_all_fined:
  "\<forall>b\<in>set bs. has_unpaid_fine t (b_id b) \<Longrightarrow> fines (fold overtime_step bs t) = fines t"
  by (induction bs arbitrary: t) (simp_all add: overtime_step_def)

lemma bookings_send_reminders [simp]: "bookings (send_reminders s now) = bookings s"
  unfolding send_reminders_def by (rule fold_keeps) simp

lemma fines_send_reminders [simp]: "fines (send_reminders s now) = fines s"
  unfolding send_reminders_def by (rule fold_keeps) simp

lemma bookings_process_parking_automation [simp]:
  "bookings (process_parking_automation s now) = bookings s"
proof -
  have "\<And>bs t. bookings (fold overtime_step bs t) = bookings t"
    by (rule fold_keeps) simp
  then show ?thesis by (simp add: process_parking_automation_def Let_def)
qed

lemma overtime_ids:
  "i \<in> b_id ` set (overtime_bookings s now) \<longleftrightarrow>
     (\<exists>b\<in>set (bookings s). b_id b = i \<and> b_status b = CONFIRMED \<and> exit_datetime_expected b < now)"
  by (auto simp: overtime_bookings_def)

lemma overtime_bookings_cong: "bookings t = bookings s \<Longrightarrow> overtime_bookings t now = overtime_bookings s now"
  by (simp add: overtime_bookings_def)

lemma sweep_count:
  "length (unpaid_fines (process_parking_automation s now) i) =
     (if unpaid_fines s i = []
         \<and> (\<exists>b\<in>set (bookings s). b_id b = i \<and> b_status b = CONFIRMED \<and> exit_datetime_expected b < now)
      then 1 else length (unpaid_fines s i))"
proof -
  let ?s1 = "send_reminders s now"
  have u: "unpaid_fines ?s1 i = unpaid_fines s i" by (rule unpaid_fines_cong) simp
  have o: "overtime_bookings ?s1 now = overtime_bookings s now" by (rule overtime_bookings_cong) simp
  show ?thesis
    unfolding process_parking_automation_def Let_def fold_overtime_step_count u o overtime_ids ..
qed

lemma sweep_new:
  "\<exists>new. fines (process_parking_automation s now) = fines s @ new
     \<and> (\<forall>f\<in>set new. f_status f = UNPAID \<and> unpaid_fines s (f_booking f) = []
          \<and> (\<exists>b\<in>set (bookings s). b_id b = f_booking f \<and> b_status b = CONFIRMED
                \<and> exit_datetime_expected b < now
                \<and> f_amount f = quantize2 (base_rate_per_hour (b_location b))))"
proof -
  let ?s1 = "send_reminders s now"
  from fold_overtime_step_new[of "overtime_bookings ?s1 now" ?s1] obtain new where
    n: "fines (fold overtime_step (overtime_bookings ?s1 now) ?s1) = fines ?s1 @ new"
    and p: "\<forall>f\<in>set new. f_status f = UNPAID \<and> unpaid_fines ?s1 (f_booking f) = []
          \<and> (\<exists>b\<in>set (overtime_bookings ?s1 now). b_id b = f_booking f
                \<and> f_amount f = quantize2 (base_rate_per_hour (b_location b)))"
    by blast
  have u: "\<And>i. unpaid_fines ?s1 i = unpaid_fines s i" by (rule unpaid_fines_cong) simp
  have "fines (process_parking_automation s now) = fines s @ new"
    using n by (simp add: process_parking_automation_def Let_def)
  moreover have "\<forall>f\<in>set new. f_status f = UNPAID \<and> unpaid_fines s (f_booking f) = []
          \<and> (\<exists>b\<in>set (bookings s). b_id b = f_booking f \<and> b_status b = CONFIRMED
                \<and> exit_datetime_expected b < now
                \<and> f_amount f = quantize2 (base_rate_per_hour (b_location b)))"
    using p unfolding u by (auto simp: overtime_bookings_def)
  ultimately show ?thesis by blast
qed

lemma sweep_again:
  assumes "now' \<le> now"
  shows "fines (process_parking_automation (process_parking_automation s now) now')
           = fines (process_parking_automation s now)"
proof -
  let ?t = "process_parking_automation s now"
  let ?t1 = "send_reminders ?t now'"
  have "\<forall>b\<in>set (overtime_bookings ?t1 now'). has_unpaid_fine ?t1 (b_id b)"
  proof
    fix b assume "b \<in> set (overtime_bookings ?t1 now')"
    then have b: "b \<in> set (bookings s)" "b_status b = CONFIRMED" "exit_datetime_expected b < now"
      using assms by (auto simp: overtime_bookings_def)
    have "length (unpaid_fines ?t (b_id b)) \<noteq> 0"
      using b by (auto simp: sweep_count)
    moreover have "unpaid_fines ?t1 (b_id b) = unpaid_fines ?t (b_id b)"
      by (rule unpaid_fines_cong) simp
    ultimately have "unpaid_fines ?t1 (b_id b) \<noteq> []"
      by simp
    then show "has_unpaid_fine ?t1 (b_id b)" by (simp add: has_unpaid_fine_iff)
  qed
  from fold_overtime_step_all_fined[OF this]
  show ?thesis by (simp add: process_parking_automation_def[of ?t now'] Let_def)
qed


lemma fines_create_booking:
  "fines (snd (create_booking s user location_id sid meth entry_in exit_in now)) = fines s"
  by (auto simp: create_booking_def Let_def split: option.splits)

lemma fines_extend_booking:
  "fines (snd (extend_booking s user booking_id meth new_exit_in)) = fines s"
  by (auto simp: extend_booking_def Let_def simp del: py_add.simps
      split: option.splits sum.splits posted_datetime.splits)

lemma fines_cancel_booking:
  "fines (snd (cancel_booking s user booking_id meth now)) = fines s"
  by (auto simp: cancel_booking_def refund_and_cancel_def save_cancelled_def Let_def
      simp del: py_mul.simps py_sub.simps split: option.splits sum.splits)

lemma fines_staff_scan_qr: "fines (snd (staff_scan_qr s meth code now)) = fines s"
  by (auto simp: staff_scan_qr_def split: option.splits)

lemma fines_cleanup_reservations: "fines (cleanup_reservations s now) = fines s"
  unfolding cleanup_reservations_def by (rule fold_keeps) simp

lemma at_most_one_step:
  assumes "\<forall>i. length (unpaid_fines s i) \<le> 1"
  shows "\<forall>i. length (unpaid_fines (apply_operation op s) i) \<le> 1"
proof (cases op)
  case (OvertimeSweep now)
  then show ?thesis using assms by (simp add: sweep_count)
next
  case (Create u l sl m e x n)
  then have "unpaid_fines (apply_operation op s) = unpaid_fines s"
    by (intro ext unpaid_fines_cong) (simp add: fines_create_booking)
  then show ?thesis using assms by simp
next
  case (Extend u b m x)
  then have "unpaid_fines (apply_operation op s) = unpaid_fines s"
    by (intro ext unpaid_fines_cong) (simp add: fines_extend_booking)
  then show ?thesis using assms by simp
next
  case (Cancel u b m n)
  then have "unpaid_fines (apply_operation op s) = unpaid_fines s"
    by (intro ext unpaid_fines_cong) (simp add: fines_cancel_booking)
  then show ?thesis using assms by simp
next
  case (Scan m c n)
  then have "unpaid_fines (apply_operation op s) = unpaid_fines s"
    by (intro ext unpaid_fines_cong) (simp add: fines_staff_scan_qr)
  then show ?thesis using assms by simp
next
  case (ExpirySweep n)
  then have "unpaid_fines (apply_operation op s) = unpaid_fines s"
    by (intro ext unpaid_fines_cong) (simp add: fines_cleanup_reservations)
  then show ?thesis using assms by simp
qed

lemma at_most_one_run:
  "\<forall>i. length (unpaid_fines s i) \<le> 1 \<Longrightarrow> \<forall>i. length (unpaid_fines (run ops s) i) \<le> 1"
  unfolding run_def
proof (induction ops arbitrary: s)
  case Nil
  then show ?case by simp
next
  case (Cons op ops)
  from at_most_one_step[OF Cons.prems] have "\<forall>i. length (unpaid_fines (apply_operation op s) i) \<le> 1" .
  from Cons.IH[OF this] show ?case by simp
qed

text \<open>
  C8. One run of \<open>process_parking_automation\<close> at \<open>now\<close> leaves every booking key
  with exactly one unpaid fine if it had none and a confirmed booking of that key has its
  expected exit before \<open>now\<close>, and with the unpaid fines it had otherwise. The fines
  table grows by rows that are unpaid, belong to such a booking that had no unpaid fine,
  and carry the hourly rate of the booking's location (as a two-place decimal). A second
  run at the same or an earlier time adds no fine. If no booking has more than one unpaid
  fine, none has after any sequence of operations, the sweep run any number of times
  among them.
\<close>

theorem overtime_sweep_one_unpaid_fine:
  "(\<forall>i. length (unpaid_fines (process_parking_automation s now) i) =
      (if unpaid_fines s i = []
          \<and> (\<exists>b\<in>set (bookings s). b_id b = i \<and> b_status b = CONFIRMED
                \<and> exit_datetime_expected b < now)
       then 1 else length (unpaid_fines s i)))
   \<and> (\<exists>new. fines (process_parking_automation s now) = fines s @ new
         \<and> (\<forall>f\<in>set new. f_status f = UNPAID \<and> unpaid_fines s (f_booking f) = []
               \<and> (\<exists>b\<in>set (bookings s). b_id b = f_booking f \<and> b_status b = CONFIRMED
                     \<and> exit_datetime_expected b < now
                     \<and> f_amount f = quantize2 (base_rate_per_hour (b_location b)))))
   \<and> (now' \<le> now \<longrightarrow>
         fines (process_parking_automation (process_parking_automation s now) now')
           = fines (process_parking_automation s now))
   \<and> ((\<forall>i. length (unpaid_fines s i) \<le> 1)
         \<longrightarrow> (\<forall>i. length (unpaid_fines (run ops s) i) \<le> 1))"
  using sweep_count[of s now] sweep_new[of s now] sweep_again[of now' now s] at_most_one_run[of s ops]
  by blast

lemma quantize2_hundredths: "quantize2 (of_int n / 100) = of_int n / 100"
  by (simp add: quantize2_def py_round_def)

lemmas sweep_defs = process_parking_automation_def send_reminders_def overtime_bookings_def
  overtime_step_def has_unpaid_fine_def

theorem overtime_sweep_one_unpaid_fine_witness:
  "fines db_booked = []
   \<and> map (\<lambda>f. (f_booking f, f_amount f, f_status f))
        (fines (process_parking_automation db_booked 43200000000)) = [(1, 100, UNPAID)]
   \<and> fines (process_parking_automation (process_parking_automation db_booked 43200000000) 43200000000)
        = fines (process_parking_automation db_booked 43200000000)
   \<and> length (unpaid_fines (run [OvertimeSweep 43200000000, OvertimeSweep 46800000000] db_booked) 1) \<le> 1"
proof -
  have e: "fines db_booked = []"
    by (simp add: create_booking_def overlapping_def dynamic_multiplier_def expected_amount_def
        number_defs table_defs example_defs)
  then have u: "\<forall>i. length (unpaid_fines db_booked i) \<le> 1"
    by (simp add: unpaid_fines_def)
  have m: "map (\<lambda>f. (f_booking f, f_amount f, f_status f))
        (fines (process_parking_automation db_booked 43200000000)) = [(1, 100, UNPAID)]"
    by (simp add: sweep_defs create_booking_def overlapping_def dynamic_multiplier_def
        expected_amount_def number_defs table_defs example_defs)
  from overtime_sweep_one_unpaid_fine[of db_booked 43200000000 43200000000
      "[OvertimeSweep 43200000000, OvertimeSweep 46800000000]"] u e m
  show ?thesis by simp
qed

section \<open>Overlapping bookings\<close>

lemma fold_preserves:
  assumes "\<And>x t. P t \<Longrightarrow> P (f x t)" and "P s"
  shows "P (fold f xs s)"
  using assms(2) by (induction xs arbitrary: s) (simp_all add: assms(1))

lemma to_row_simps [simp]:
  "b_id (to_row b) = b_id b"
  "b_slot (to_row b) = b_slot b"
  "b_user (to_row b) = b_user b"
  "b_status (to_row b) = b_status b"
  "entry_datetime_expected (to_row b) = entry_datetime_expected b"
  "exit_datetime_expected (to_row b) = exit_datetime_expected b"
  "window (to_row b) = window b"
  by (simp_all add: to_row_def window_def)

lemma no_double_booking_cong:
  "bookings t = bookings s \<Longrightarrow> no_double_booking t = no_double_booking s"
  by (simp add: no_double_booking_def)

lemma no_double_booking_map:
  assumes inv: "no_double_booking s"
    and t: "bookings t = map g (bookings s)"
    and g: "\<And>b. b_id (g b) = b_id b \<and> b_slot (g b) = b_slot b
              \<and> (b_status (g b) = CONFIRMED \<longrightarrow> b_status b = CONFIRMED \<and> window (g b) = window b)"
  shows "no_double_booking t"
proof -
  have ids: "map b_id (bookings t) = map b_id (bookings s)"
    by (simp add: t g)
  have "window a' \<inter> window b' = {}"
    if "a' \<in> set (bookings t)" "b' \<in> set (bookings t)" "b_id a' \<noteq> b_id b'" "b_slot a' = b_slot b'"
      "b_status a' = CONFIRMED" "b_status b' = CONFIRMED" for a' b'
  proof -
    from that(1,2) t obtain a b where ab: "a \<in> set (bookings s)" "b \<in> set (bookings s)"
      "a' = g a" "b' = g b" by auto
    with that g have "b_id a \<noteq> b_id b" "b_slot a = b_slot b" "b_status a = CONFIRMED"
      "b_status b = CONFIRMED" "window a' = window a" "window b' = window b"
      by metis+
    with inv ab show ?thesis unfolding no_double_booking_def by blast
  qed
  with inv ids show ?thesis unfolding no_double_booking_def by auto
qed

lemma no_double_booking_update:
  assumes "no_double_booking s" and "bookings t = bookings s"
    and "\<And>b. b_id (f b) = b_id b \<and> b_slot (f b) = b_slot b
              \<and> (b_status (f b) = CONFIRMED \<longrightarrow> b_status b = CONFIRMED \<and> window (f b) = window b)"
  shows "no_double_booking (update_booking t i f)"
  by (rule no_double_booking_map[OF assms(1), where g = "\<lambda>b. if b_id b = i then to_row (f b) else b"])
     (simp_all add: assms(2,3))

lemma next_booking_id_fresh: "b \<in> set (bookings s) \<Longrightarrow> b_id b < next_booking_id s"
proof -
  assume "b \<in> set (bookings s)"
  then have "b_id b \<in> set (0 # map b_id (bookings s))" by simp
  then have "b_id b \<le> Max (set (0 # map b_id (bookings s)))" by (intro Max_ge) auto
  then show ?thesis by (simp add: next_booking_id_def)
qed

lemma not_overlapping_disjoint:
  assumes "\<not> overlapping s sid e x" "b \<in> set (bookings s)" "b_slot b = sid" "b_status b = CONFIRMED"
  shows "window b \<inter> {e..<x} = {}"
proof -
  from assms have "\<not> (entry_datetime_expected b < x \<and> e < exit_datetime_expected b)"
    by (auto simp: overlapping_def)
  then show ?thesis by (auto simp: window_def)
qed

lemma no_double_booking_append:
  assumes inv: "no_double_booking s"
    and t: "bookings t = bookings s @ [row]"
    and fresh: "b_id row = next_booking_id s"
    and free: "\<And>b. b \<in> set (bookings s) \<Longrightarrow> b_slot b = b_slot row \<Longrightarrow> b_status b = CONFIRMED
                 \<Longrightarrow> window b \<inter> window row = {}"
  shows "no_double_booking t"
proof -
  have f: "b_id row \<notin> b_id ` set (bookings s)"
    using next_booking_id_fresh[of _ s] fresh by fastforce
  have d: "distinct (map b_id (bookings t))"
    using inv f by (simp add: t no_double_booking_def)
  have "window a \<inter> window b = {}"
    if mem: "a \<in> set (bookings t)" "b \<in> set (bookings t)"
      and ab: "b_id a \<noteq> b_id b" "b_slot a = b_slot b"
        "b_status a = CONFIRMED" "b_status b = CONFIRMED" for a b
  proof -
    from mem t have "a \<in> set (bookings s) \<or> a = row" "b \<in> set (bookings s) \<or> b = row"
      by auto
    then consider "a \<in> set (bookings s)" "b \<in> set (bookings s)"
      | "a \<in> set (bookings s)" "b = row" | "a = row" "b \<in> set (bookings s)" | "a = row" "b = row"
      by blast
    then show ?thesis
    proof cases
      case 1 with inv ab show ?thesis unfolding no_double_booking_def by blast
    next
      case 2 with free ab show ?thesis by blast
    next
      case 3 with free[of b] ab show ?thesis by (simp add: Int_commute)
    next
      case 4 with ab show ?thesis by simp
    qed
  qed
  with d show ?thesis unfolding no_double_booking_def by blast
qed

lemma get_slot_id: "get_slot s sid location = Some slot \<Longrightarrow> slot_id slot = sid"
  by (auto simp: get_slot_def find_Some_iff)

lemma create_booking_bookings:
  "bookings (snd (create_booking s user location_id sid meth entry_in exit_in now)) = bookings s
   \<or> (\<exists>entry exit_t row. entry_in = Some entry \<and> exit_in = Some exit_t
        \<and> \<not> overlapping s sid (dt_instant entry) (dt_instant exit_t)
        \<and> bookings (snd (create_booking s user location_id sid meth entry_in exit_in now))
            = bookings s @ [row]
        \<and> b_id row = next_booking_id s \<and> b_slot row = sid \<and> b_status row = CONFIRMED
        \<and> window row = {dt_instant entry ..< dt_instant exit_t})"
proof -
  have m: "\<And>f. map (\<lambda>b. if b_id b = next_booking_id s then f b else b) (bookings s) = bookings s"
    using next_booking_id_fresh by (intro map_idI) fastforce
  show ?thesis
    by (auto simp: create_booking_def Let_def m window_def get_slot_id split: option.splits)
qed

lemma create_booking_preserves:
  assumes "no_double_booking s"
  shows "no_double_booking (snd (create_booking s user location_id sid meth entry_in exit_in now))"
proof -
  let ?t = "snd (create_booking s user location_id sid meth entry_in exit_in now)"
  from create_booking_bookings[of s user location_id sid meth entry_in exit_in now]
  show ?thesis
  proof (elim disjE exE conjE)
    assume "bookings ?t = bookings s"
    then show ?thesis using assms no_double_booking_cong[of ?t s] by simp
  next
    fix entry exit_t row
    assume free: "\<not> overlapping s sid (dt_instant entry) (dt_instant exit_t)"
      and t: "bookings ?t = bookings s @ [row]"
      and row: "b_id row = next_booking_id s" "b_slot row = sid"
        "window row = {dt_instant entry ..< dt_instant exit_t}"
    show ?thesis
    proof (rule no_double_booking_append[OF assms t row(1)])
      fix b assume "b \<in> set (bookings s)" "b_slot b = b_slot row" "b_status b = CONFIRMED"
      then show "window b \<inter> window row = {}"
        using not_overlapping_disjoint[OF free, of b] row by simp
    qed
  qed
qed


lemma get_confirmed_booking_Some:
  assumes "get_confirmed_booking s i u = Some a"
  shows "a \<in> set (bookings s)" "b_id a = i" "b_user a = u" "b_status a = CONFIRMED"
  using assms by (auto simp: get_confirmed_booking_def find_Some_iff)

text \<open>
  The write of \<open>extend_booking\<close> (lines 532 to 535) after its two checks: moving the
  expected exit of a confirmed booking to a later time that no other confirmed booking of
  the slot overlaps keeps the table free of double bookings.
\<close>

lemma extension_write_preserves:
  assumes inv: "no_double_booking s"
    and a: "a \<in> set (bookings s)" "b_status a = CONFIRMED"
    and later: "exit_datetime_expected a < new_exit"
    and free: "\<not> overlapping_extension s a new_exit"
    and t: "bookings t = bookings s"
  shows "no_double_booking (update_booking t (b_id a)
           (\<lambda>b. b\<lparr>exit_datetime_expected := new_exit, amount_expected := x, amount_paid := y\<rparr>))"
proof -
  let ?f = "\<lambda>b. b\<lparr>exit_datetime_expected := new_exit, amount_expected := x, amount_paid := y\<rparr>"
  let ?g = "\<lambda>b. if b_id b = b_id a then to_row (?f b) else b"
  let ?t = "update_booking t (b_id a) ?f"
  have bt: "bookings ?t = map ?g (bookings s)" by (simp add: t)
  have d: "distinct (map b_id (bookings s))" using inv by (simp add: no_double_booking_def)
  have only: "b = a" if "b \<in> set (bookings s)" "b_id b = b_id a" for b
    using that a(1) d by (meson distinct_map inj_on_def)
  have ids: "map b_id (bookings ?t) = map b_id (bookings s)"
    unfolding bt by (simp add: comp_def)
  have grown: "window (?g a) \<inter> window b = {}"
    if b: "b \<in> set (bookings s)" "b_id b \<noteq> b_id a" "b_slot b = b_slot a" "b_status b = CONFIRMED" for b
  proof -
    have old: "window a \<inter> window b = {}"
      using inv a b unfolding no_double_booking_def by metis
    have "\<not> (entry_datetime_expected b < new_exit
              \<and> exit_datetime_expected a < exit_datetime_expected b)"
      using free b unfolding overlapping_extension_def by blast
    with old later show ?thesis by (auto simp: window_def)
  qed
  have "window a' \<inter> window b' = {}"
    if mem: "a' \<in> set (bookings ?t)" "b' \<in> set (bookings ?t)"
      and ab: "b_id a' \<noteq> b_id b'" "b_slot a' = b_slot b'"
        "b_status a' = CONFIRMED" "b_status b' = CONFIRMED" for a' b'
  proof -
    from mem obtain p q where pq: "p \<in> set (bookings s)" "q \<in> set (bookings s)"
      "a' = ?g p" "b' = ?g q" unfolding bt by auto
    have props: "b_id a' = b_id p" "b_id b' = b_id q" "b_slot a' = b_slot p" "b_slot b' = b_slot q"
      "b_status a' = b_status p" "b_status b' = b_status q"
      using pq(3,4) by simp_all
    show ?thesis
    proof (cases "b_id p = b_id a")
      case True
      then have p: "p = a" using only pq(1) by blast
      then have "b_id q \<noteq> b_id a" using ab(1) props by simp
      with grown[of q] pq ab props p show ?thesis by simp
    next
      case False
      note np = this
      show ?thesis
      proof (cases "b_id q = b_id a")
        case True
        then have q: "q = a" using only pq(2) by blast
        with grown[of p] pq ab props np show ?thesis by (simp add: Int_commute)
      next
        case False
        with np pq have e: "a' = p" "b' = q" by simp_all
        have "b_id p \<noteq> b_id q" "b_slot p = b_slot q" "b_status p = CONFIRMED"
          "b_status q = CONFIRMED"
          using ab unfolding e by simp_all
        with inv pq(1,2) have "window p \<inter> window q = {}"
          unfolding no_double_booking_def by blast
        then show ?thesis unfolding e .
      qed
    qed
  qed
  with d ids show ?thesis unfolding no_double_booking_def by auto
qed

lemma extend_booking_preserves:
  assumes "no_double_booking s"
  shows "no_double_booking (snd (extend_booking s user booking_id meth new_exit_in))"
proof (cases "get_confirmed_booking s booking_id user")
  case None
  then show ?thesis using assms by (simp add: extend_booking_def)
next
  case (Some a)
  note a = get_confirmed_booking_Some[OF Some]
  show ?thesis
  proof (cases new_exit_in)
    case (AwareDatetime new_exit)
    let ?h = "py_round2 (total_seconds (dt_instant new_exit - exit_datetime_expected a) / 3600)"
    let ?amount = "?h * (base_rate_per_hour (b_location a)
                     * dynamic_multiplier (pricing_rules s) (b_location a) new_exit)"
    let ?s2 = "create_extension (create_payment s (b_id a) ?amount SUCCESS ''DUMMY_GATEWAY'')
                 (b_id a) ?h ?amount"
    have s2: "bookings ?s2 = bookings s" by simp
    have keep: "no_double_booking ?s2"
      using assms no_double_booking_cong[OF s2] by simp
    have upd: "no_double_booking (update_booking ?s2 (b_id a)
           (\<lambda>b. b\<lparr>exit_datetime_expected := dt_instant new_exit, amount_expected := x, amount_paid := y\<rparr>))"
      if "exit_datetime_expected a < dt_instant new_exit"
        "\<not> overlapping_extension s a (dt_instant new_exit)" for x y
      using extension_write_preserves[OF assms a(1,4) that s2] .
    show ?thesis
      using assms keep upd Some AwareDatetime
      by (auto simp: extend_booking_def Let_def simp del: py_add.simps bookings_simps
          split: sum.splits)
  qed (use assms Some in \<open>auto simp: extend_booking_def\<close>)
qed


lemma cancel_booking_preserves:
  assumes "no_double_booking s"
  shows "no_double_booking (snd (cancel_booking s user booking_id meth now))"
proof -
  have saved: "no_double_booking (save_cancelled t a paid)"
    if "bookings t = bookings s" for t a paid
  proof -
    have "no_double_booking (update_booking t (b_id a) (\<lambda>b. b\<lparr>b_status := CANCELLED, amount_paid := paid\<rparr>))"
      by (rule no_double_booking_update[OF assms that]) (simp add: window_def)
    then show ?thesis
      using no_double_booking_cong[of "save_cancelled t a paid"
          "update_booking t (b_id a) (\<lambda>b. b\<lparr>b_status := CANCELLED, amount_paid := paid\<rparr>)"]
      by (simp add: save_cancelled_def)
  qed
  have kept: "no_double_booking t" if "bookings t = bookings s" for t
    using assms no_double_booking_cong[OF that] by simp
  have paid: "bookings (create_payment s i x st m) = bookings s" for i x st m
    by simp
  have rc: "no_double_booking (snd (refund_and_cancel s a refundable))" for a refundable
    using saved[OF paid] saved[OF refl] kept[OF paid]
    by (auto simp: refund_and_cancel_def Let_def simp del: py_sub.simps bookings_simps
        split: sum.splits)
  show ?thesis
    using assms rc
    by (auto simp: cancel_booking_def Let_def simp del: py_mul.simps split: option.splits sum.splits)
qed

lemma staff_scan_qr_preserves:
  assumes "no_double_booking s"
  shows "no_double_booking (snd (staff_scan_qr s meth code now))"
proof -
  have upd: "no_double_booking (create_entry_exit_log (update_booking s i f) j ev)"
    if "\<And>b. b_id (f b) = b_id b \<and> b_slot (f b) = b_slot b
              \<and> (b_status (f b) = CONFIRMED \<longrightarrow> b_status b = CONFIRMED \<and> window (f b) = window b)"
    for i j f ev
    using no_double_booking_update[OF assms refl that, of i]
      no_double_booking_cong[of "create_entry_exit_log (update_booking s i f) j ev" "update_booking s i f"]
    by simp
  have e: "no_double_booking (create_entry_exit_log
             (update_booking s i (\<lambda>b. b\<lparr>actual_entry_datetime := Some now\<rparr>)) j ENTRY)" for i j
    by (rule upd) (simp add: window_def)
  have x: "no_double_booking (create_entry_exit_log
             (update_booking s i (\<lambda>b. b\<lparr>actual_exit_datetime := Some now, b_status := COMPLETED\<rparr>)) j EXIT)"
    for i j
    by (rule upd) (simp add: window_def)
  show ?thesis
    using assms e x
    by (auto simp: staff_scan_qr_def simp del: bookings_simps split: option.splits)
qed

lemma cleanup_reservations_preserves:
  assumes "no_double_booking s"
  shows "no_double_booking (cleanup_reservations s now)"
  unfolding cleanup_reservations_def
proof (rule fold_preserves[where P = no_double_booking])
  fix x t assume "no_double_booking t"
  then show "no_double_booking (update_booking t (b_id x) (\<lambda>b. b\<lparr>b_status := CANCELLED\<rparr>))"
    by (rule no_double_booking_update[OF _ refl]) (simp add: window_def)
qed (rule assms)

lemma process_parking_automation_preserves:
  assumes "no_double_booking s"
  shows "no_double_booking (process_parking_automation s now)"
  using assms no_double_booking_cong[OF bookings_process_parking_automation, of s now] by simp

lemma apply_operation_preserves:
  "no_double_booking s \<Longrightarrow> no_double_booking (apply_operation op s)"
  by (cases op)
     (simp_all add: create_booking_preserves extend_booking_preserves cancel_booking_preserves
        staff_scan_qr_preserves cleanup_reservations_preserves process_parking_automation_preserves)

lemma run_preserves: "no_double_booking s \<Longrightarrow> no_double_booking (run ops s)"
  unfolding run_def
  by (induction ops arbitrary: s) (simp_all add: apply_operation_preserves)

lemma create_conflict_iff:
  assumes "get_location s location_id = Some location" "get_slot s sid location = Some slot"
    and "dt_instant entry < dt_instant exit_t"
  shows "fst (create_booking s user location_id sid POST (Some entry) (Some exit_t) now)
           = Inl SlotAlreadyBooked
         \<longleftrightarrow> (\<exists>b\<in>set (bookings s). b_slot b = sid \<and> b_status b = CONFIRMED
               \<and> entry_datetime_expected b < dt_instant exit_t
               \<and> dt_instant entry < exit_datetime_expected b)"
  using assms get_slot_id[OF assms(2)]
  by (auto simp: create_booking_def overlapping_def Let_def split: option.splits)

text \<open>
  C1. The empty database has no two distinct confirmed bookings of one slot whose
  half-open windows from expected entry to expected exit intersect, and neither has any
  database reached from one without such a pair by a sequence of operations (create and
  extend, and also cancel, scan and the two sweeps). For an active location, a slot of it
  and a window with entry before exit, a posted \<open>create_booking\<close> answers that the slot
  is already booked exactly when some confirmed booking of the slot has its entry before
  the window's end and its exit after the window's start.
\<close>

theorem confirmed_windows_never_overlap:
  "no_double_booking empty_db
   \<and> (no_double_booking s \<longrightarrow> no_double_booking (run ops s))
   \<and> (get_location s location_id = Some location \<and> get_slot s sid location = Some slot
        \<and> dt_instant entry < dt_instant exit_t \<longrightarrow>
        (fst (create_booking s user location_id sid POST (Some entry) (Some exit_t) now)
           = Inl SlotAlreadyBooked
         \<longleftrightarrow> (\<exists>b\<in>set (bookings s). b_slot b = sid \<and> b_status b = CONFIRMED
               \<and> entry_datetime_expected b < dt_instant exit_t
               \<and> dt_instant entry < exit_datetime_expected b)))"
proof -
  have "no_double_booking empty_db" by (simp add: no_double_booking_def empty_db_def)
  then show ?thesis
    using run_preserves[of s ops] create_conflict_iff[of s location_id location sid slot entry exit_t user now]
    by blast
qed


theorem confirmed_windows_never_overlap_witness:
  "no_double_booking db_a
   \<and> no_double_booking
        (run [Create 1 1 1 POST (Some (at_hour 9)) (Some (at_hour 11)) 0,
              Create 1 1 1 POST (Some (at_hour 11)) (Some (at_hour 12)) 0,
              Create 1 1 1 POST (Some (at_hour 10)) (Some (at_hour 12)) 0] db_a)
   \<and> map (\<lambda>b. (b_id b, b_status b, entry_datetime_expected b, exit_datetime_expected b))
        (bookings
          (run [Create 1 1 1 POST (Some (at_hour 9)) (Some (at_hour 11)) 0,
                Create 1 1 1 POST (Some (at_hour 11)) (Some (at_hour 12)) 0,
                Create 1 1 1 POST (Some (at_hour 10)) (Some (at_hour 12)) 0] db_a))
      = [(1, CONFIRMED, 32400000000, 39600000000), (2, CONFIRMED, 39600000000, 43200000000)]
   \<and> fst (create_booking
            (run [Create 1 1 1 POST (Some (at_hour 9)) (Some (at_hour 11)) 0,
                  Create 1 1 1 POST (Some (at_hour 11)) (Some (at_hour 12)) 0] db_a)
            1 1 1 POST (Some (at_hour 10)) (Some (at_hour 12)) 0)
      = Inl SlotAlreadyBooked"
proof -
  have i: "no_double_booking db_a"
    by (simp add: no_double_booking_def db_a_def empty_db_def)
  have m: "map (\<lambda>b. (b_id b, b_status b, entry_datetime_expected b, exit_datetime_expected b))
        (bookings
          (run [Create 1 1 1 POST (Some (at_hour 9)) (Some (at_hour 11)) 0,
                Create 1 1 1 POST (Some (at_hour 11)) (Some (at_hour 12)) 0,
                Create 1 1 1 POST (Some (at_hour 10)) (Some (at_hour 12)) 0] db_a))
      = [(1, CONFIRMED, 32400000000, 39600000000), (2, CONFIRMED, 39600000000, 43200000000)]"
    by (simp add: run_def create_booking_def overlapping_def dynamic_multiplier_def
        expected_amount_def number_defs table_defs example_defs)
  have r: "fst (create_booking
            (run [Create 1 1 1 POST (Some (at_hour 9)) (Some (at_hour 11)) 0,
                  Create 1 1 1 POST (Some (at_hour 11)) (Some (at_hour 12)) 0] db_a)
            1 1 1 POST (Some (at_hour 10)) (Some (at_hour 12)) 0)
      = Inl SlotAlreadyBooked"
    by (simp add: run_def create_booking_def overlapping_def dynamic_multiplier_def
        expected_amount_def number_defs table_defs example_defs)
  from confirmed_windows_never_overlap[of db_a
      "[Create 1 1 1 POST (Some (at_hour 9)) (Some (at_hour 11)) 0,
        Create 1 1 1 POST (Some (at_hour 11)) (Some (at_hour 12)) 0,
        Create 1 1 1 POST (Some (at_hour 10)) (Some (at_hour 12)) 0]"] i
  have "no_double_booking
        (run [Create 1 1 1 POST (Some (at_hour 9)) (Some (at_hour 11)) 0,
              Create 1 1 1 POST (Some (at_hour 11)) (Some (at_hour 12)) 0,
              Create 1 1 1 POST (Some (at_hour 10)) (Some (at_hour 12)) 0] db_a)"
    by blast
  with i m r show ?thesis by blast
qed

end
